theory Spec2Isabelle
  imports Main "HOL-Library.AList"
begin

section \<open>Python values, exceptions and the history of collaborator calls\<close>

text \<open>
  The module \<^verbatim>\<open>airflow/utils/session.py\<close> is a decorator around an arbitrary function and
  a session object of the database layer. Both are collaborators: the model keeps them as
  parameters and records every call the decorator makes to them in a history of events.

  A Python value is one of the few shapes the decorator can tell apart: a session object
  (anything with \<^verbatim>\<open>commit\<close>, \<^verbatim>\<open>rollback\<close>, \<^verbatim>\<open>close\<close>; identified by a number), a string,
  an integer or \<^verbatim>\<open>None\<close>.
\<close>

datatype pyval = PNone | PInt int | PStr string | PSession nat

text \<open>
  An exception object carries the names of its class and of all its base classes (most
  specific first), and a message that tells two exceptions of one class apart.
  \<^verbatim>\<open>isinstance(e, classes)\<close> and \<^verbatim>\<open>except classes:\<close> look the class names up there.
\<close>

datatype exn = Exn (exn_mro: "string list") (exn_msg: string)

definition isinstance :: "exn \<Rightarrow> string list \<Rightarrow> bool" where
  "isinstance e classes = list_ex (\<lambda>c. c \<in> set (exn_mro e)) classes"

definition AttributeError :: "string \<Rightarrow> exn" where
  "AttributeError m = Exn [''AttributeError'', ''Exception'', ''BaseException''] m"

text \<open>The message of the interpreter when an object of type \<open>ty\<close> is asked for an attribute it
  does not have: \<^verbatim>\<open>'ty' object has no attribute 'attr'\<close> (\<open>CHR 0x27\<close> is the quote mark).\<close>

definition no_attribute :: "string \<Rightarrow> string \<Rightarrow> string" where
  "no_attribute ty attr =
     CHR 0x27 # ty @ CHR 0x27 # '' object has no attribute '' @ CHR 0x27 # attr @ [CHR 0x27]"

definition OperationalError :: "string \<Rightarrow> exn" where
  "OperationalError m =
     Exn [''OperationalError'', ''DatabaseError'', ''DBAPIError'', ''StatementError'',
          ''SQLAlchemyError'', ''Exception'', ''BaseException''] m"

type_synonym kwargs = "(string \<times> pyval) list"

text \<open>
  One event per call the decorator makes, with the outcome of the call: the session factory
  \<^verbatim>\<open>settings.Session()\<close>, the wrapped function, and \<^verbatim>\<open>commit\<close>, \<^verbatim>\<open>rollback\<close> and
  \<^verbatim>\<open>close\<close> of a session.
\<close>

datatype event =
    EvSession "exn + nat"
  | EvCall "pyval list" kwargs "exn + pyval"
  | EvCommit nat "exn option"
  | EvRollback nat "exn option"
  | EvClose nat "exn option"

text \<open>
  The collaborators are deterministic in the history: what a call does may depend on
  everything that happened before it. \<open>Inl e\<close> and \<open>Some e\<close> mean that the call raised \<open>e\<close>.
\<close>

record db =
  settings_Session :: "event list \<Rightarrow> exn + nat"
  session_commit :: "event list \<Rightarrow> nat \<Rightarrow> exn option"
  session_rollback :: "event list \<Rightarrow> nat \<Rightarrow> exn option"
  session_close :: "event list \<Rightarrow> nat \<Rightarrow> exn option"

record pyfunc =
  co_varnames :: "string list"
  call :: "event list \<Rightarrow> pyval list \<Rightarrow> kwargs \<Rightarrow> exn + pyval"

type_synonym outcome = "(exn + pyval) \<times> event list"

subsection \<open>Reading a history\<close>

fun calls_of :: "event list \<Rightarrow> (exn + pyval) list" where
  "calls_of [] = []"
| "calls_of (EvCall a k r # es) = r # calls_of es"
| "calls_of (e # es) = calls_of es"

fun sessions_of :: "event list \<Rightarrow> (exn + nat) list" where
  "sessions_of [] = []"
| "sessions_of (EvSession r # es) = r # sessions_of es"
| "sessions_of (e # es) = sessions_of es"

fun commits_of :: "event list \<Rightarrow> nat list" where
  "commits_of [] = []"
| "commits_of (EvCommit s r # es) = s # commits_of es"
| "commits_of (e # es) = commits_of es"

fun rollbacks_of :: "event list \<Rightarrow> nat list" where
  "rollbacks_of [] = []"
| "rollbacks_of (EvRollback s r # es) = s # rollbacks_of es"
| "rollbacks_of (e # es) = rollbacks_of es"

fun closes_of :: "event list \<Rightarrow> nat list" where
  "closes_of [] = []"
| "closes_of (EvClose s r # es) = s # closes_of es"
| "closes_of (e # es) = closes_of es"

text \<open>The exceptions raised by \<^verbatim>\<open>commit\<close>, \<^verbatim>\<open>rollback\<close> and \<^verbatim>\<open>close\<close> themselves.\<close>

fun raised_of :: "event list \<Rightarrow> exn list" where
  "raised_of [] = []"
| "raised_of (EvCommit s (Some x) # es) = x # raised_of es"
| "raised_of (EvRollback s (Some x) # es) = x # raised_of es"
| "raised_of (EvClose s (Some x) # es) = x # raised_of es"
| "raised_of (e # es) = raised_of es"

section \<open>The session scope: \<^verbatim>\<open>create_session\<close>\<close>

text \<open>
  \<^verbatim>\<open>
  @contextlib.contextmanager
  def create_session():
      session = settings.Session()
      try:
          yield session
          session.commit()
      except Exception:
          session.rollback()
          raise
      finally:
          session.close()
  \<close>
  \<open>scope_finally\<close> is the \<^verbatim>\<open>finally\<close> clause, entered with the result \<open>r\<close> that is on its
  way out; an exception of \<^verbatim>\<open>close\<close> replaces it. \<open>scope_except\<close> is the \<^verbatim>\<open>except\<close> clause,
  entered with the exception raised by the body of the \<^verbatim>\<open>with\<close> statement or by
  \<^verbatim>\<open>commit\<close>; it handles instances of \<^verbatim>\<open>Exception\<close> only. \<open>create_session\<close> takes the body
  of the \<^verbatim>\<open>with\<close> statement as a function of the session it is given.
\<close>

definition scope_finally :: "db \<Rightarrow> nat \<Rightarrow> exn + pyval \<Rightarrow> event list \<Rightarrow> outcome" where
  "scope_finally d sid r tr =
     (let oc = session_close d tr sid; tr' = tr @ [EvClose sid oc] in
      case oc of Some x \<Rightarrow> (Inl x, tr') | None \<Rightarrow> (r, tr'))"

definition scope_except :: "db \<Rightarrow> nat \<Rightarrow> exn \<Rightarrow> event list \<Rightarrow> outcome" where
  "scope_except d sid e tr =
     (if isinstance e [''Exception''] then
        (let oc = session_rollback d tr sid; tr' = tr @ [EvRollback sid oc] in
         case oc of
           Some x \<Rightarrow> scope_finally d sid (Inl x) tr'
         | None \<Rightarrow> scope_finally d sid (Inl e) tr')
      else scope_finally d sid (Inl e) tr)"

definition create_session :: "db \<Rightarrow> (pyval \<Rightarrow> event list \<Rightarrow> outcome) \<Rightarrow> event list \<Rightarrow> outcome" where
  "create_session d body tr =
     (let s = settings_Session d tr; tr0 = tr @ [EvSession s] in
      case s of
        Inl x \<Rightarrow> (Inl x, tr0)
      | Inr sid \<Rightarrow>
          (case body (PSession sid) tr0 of
             (Inr v, tr1) \<Rightarrow>
               (let oc = session_commit d tr1 sid; tr2 = tr1 @ [EvCommit sid oc] in
                case oc of
                  Some x \<Rightarrow> scope_except d sid x tr2
                | None \<Rightarrow> scope_finally d sid (Inr v) tr2)
           | (Inl e, tr1) \<Rightarrow> scope_except d sid e tr1))"

section \<open>The retry loop: \<^verbatim>\<open>retryable_transaction\<close>\<close>

text \<open>
  \<^verbatim>\<open>session.rollback()\<close> on whatever value the loop was given as its \<^verbatim>\<open>session\<close>: a session
  object rolls back (and may raise); a string, an integer and \<^verbatim>\<open>None\<close> have no attribute
  \<^verbatim>\<open>rollback\<close>, so the attribute lookup raises \<^verbatim>\<open>AttributeError\<close> and nothing is called.
\<close>

fun rollback_on :: "db \<Rightarrow> pyval \<Rightarrow> event list \<Rightarrow> exn option \<times> event list" where
  "rollback_on d (PSession sid) tr =
     (let oc = session_rollback d tr sid in (oc, tr @ [EvRollback sid oc]))"
| "rollback_on d (PStr s) tr = (Some (AttributeError (no_attribute ''str'' ''rollback'')), tr)"
| "rollback_on d (PInt n) tr = (Some (AttributeError (no_attribute ''int'' ''rollback'')), tr)"
| "rollback_on d PNone tr = (Some (AttributeError (no_attribute ''NoneType'' ''rollback'')), tr)"

text \<open>
  \<^verbatim>\<open>
  def retryable_transaction(session, attempts=2, exceptions=(OperationalError,)):
      for i in range(attempts):
          try:
              return func(*args, **kwargs)
          except exceptions:
              if i == (attempts - 1):
                  raise
              session.rollback()
  \<close>
  \<open>retry_loop\<close> is the \<^verbatim>\<open>for\<close> loop from index \<open>i\<close> on; falling out of the loop returns
  \<^verbatim>\<open>None\<close>. The closure variables \<^verbatim>\<open>func\<close>, \<^verbatim>\<open>args\<close> and \<^verbatim>\<open>kwargs\<close> are parameters.
\<close>

function retry_loop ::
  "db \<Rightarrow> pyfunc \<Rightarrow> pyval list \<Rightarrow> kwargs \<Rightarrow> pyval \<Rightarrow> int \<Rightarrow> string list \<Rightarrow> int \<Rightarrow> event list \<Rightarrow> outcome"
where
  "retry_loop d f args kwargs session attempts exceptions i tr =
     (if attempts \<le> i then (Inr PNone, tr)
      else
        (let r = call f tr args kwargs; tr1 = tr @ [EvCall args kwargs r] in
         case r of
           Inr v \<Rightarrow> (Inr v, tr1)
         | Inl e \<Rightarrow>
             if isinstance e exceptions then
               (if i = attempts - 1 then (Inl e, tr1)
                else
                  (case rollback_on d session tr1 of
                     (Some x, tr2) \<Rightarrow> (Inl x, tr2)
                   | (None, tr2) \<Rightarrow>
                       retry_loop d f args kwargs session attempts exceptions (i + 1) tr2))
             else (Inl e, tr1)))"
  by pat_completeness auto
termination
  by (relation "measure (\<lambda>(d, f, args, kwargs, session, attempts, exceptions, i, tr). nat (attempts - i))")
     auto

declare retry_loop.simps [simp del]

definition retryable_transaction ::
  "db \<Rightarrow> pyfunc \<Rightarrow> pyval list \<Rightarrow> kwargs \<Rightarrow> pyval \<Rightarrow> int \<Rightarrow> string list \<Rightarrow> event list \<Rightarrow> outcome"
where
  "retryable_transaction d f args kwargs session attempts exceptions tr =
     retry_loop d f args kwargs session attempts exceptions 0 tr"

section \<open>The decorator: \<^verbatim>\<open>provide_session\<close> and its \<^verbatim>\<open>wrapper\<close>\<close>

definition arg_session :: string where
  "arg_session = ''session''"

text \<open>\<^verbatim>\<open>tuple.index\<close>: the first position of a value (it raises when there is none; the
  decorator asks only after the membership test).\<close>

fun index_of :: "'a list \<Rightarrow> 'a \<Rightarrow> nat" where
  "index_of [] x = 0"
| "index_of (y # ys) x = (if y = x then 0 else Suc (index_of ys x))"

definition session_in_args :: "string list \<Rightarrow> pyval list \<Rightarrow> bool" where
  "session_in_args func_params args \<longleftrightarrow>
     arg_session \<in> set func_params \<and> index_of func_params arg_session < length args"

definition session_in_kwargs :: "kwargs \<Rightarrow> bool" where
  "session_in_kwargs kwargs \<longleftrightarrow> map_of kwargs arg_session \<noteq> None"

text \<open>
  \<^verbatim>\<open>
  if session_in_kwargs:
      return retryable_transaction(kwargs[arg_session], attempts, exceptions)
  elif session_in_args:
      return retryable_transaction(func_params[func_params.index(arg_session)], attempts, exceptions)
  else:
      with create_session() as session:
          kwargs[arg_session] = session
          return retryable_transaction(session, attempts, exceptions)
  \<close>
  \<open>wrapper d f attempts exceptions\<close> is \<^verbatim>\<open>provide_session(f, attempts, exceptions)\<close>, called with
  \<open>args\<close> and \<open>kwargs\<close> after the history \<open>tr\<close>.
\<close>

definition wrapper ::
  "db \<Rightarrow> pyfunc \<Rightarrow> int \<Rightarrow> string list \<Rightarrow> pyval list \<Rightarrow> kwargs \<Rightarrow> event list \<Rightarrow> outcome"
where
  "wrapper d f attempts exceptions args kwargs tr =
     (let func_params = co_varnames f in
      if session_in_kwargs kwargs then
        retryable_transaction d f args kwargs (the (map_of kwargs arg_session)) attempts exceptions tr
      else if session_in_args func_params args then
        retryable_transaction d f args kwargs
          (PStr (func_params ! index_of func_params arg_session)) attempts exceptions tr
      else
        create_session d
          (\<lambda>session. retryable_transaction d f args (AList.update arg_session session kwargs)
                        session attempts exceptions) tr)"

subsection \<open>Events of the loop\<close>

text \<open>What the loop adds to the history: calls of the function and rollbacks only.\<close>

definition loop_events :: "event list \<Rightarrow> bool" where
  "loop_events evs \<longleftrightarrow> sessions_of evs = [] \<and> commits_of evs = [] \<and> closes_of evs = []"

section \<open>Concrete collaborators\<close>

text \<open>A database layer where nothing raises; the factory hands out session number 1.\<close>

definition db_ok :: db where
  "db_ok = \<lparr> settings_Session = (\<lambda>tr. Inr 1), session_commit = (\<lambda>tr s. None),
             session_rollback = (\<lambda>tr s. None), session_close = (\<lambda>tr s. None) \<rparr>"

text \<open>
  \<^verbatim>\<open>def flaky(session=None)\<close>: raises \<^verbatim>\<open>OperationalError\<close> as long as it has been called fewer
  than \<open>n\<close> times before, then returns \<^verbatim>\<open>"ok"\<close>.
\<close>

definition flaky :: "nat \<Rightarrow> pyfunc" where
  "flaky n = \<lparr> co_varnames = [''session''],
               call = (\<lambda>tr args kwargs.
                 if length (calls_of tr) < n then Inl (OperationalError ''database is locked'')
                 else Inr (PStr ''ok'')) \<rparr>"

text \<open>\<^verbatim>\<open>def broken(session=None)\<close>: always raises \<^verbatim>\<open>ValueError\<close>.\<close>

definition ValueError :: "string \<Rightarrow> exn" where
  "ValueError m = Exn [''ValueError'', ''Exception'', ''BaseException''] m"

definition broken :: pyfunc where
  "broken = \<lparr> co_varnames = [''session''],
               call = (\<lambda>tr args kwargs. Inl (ValueError ''bad input'')) \<rparr>"

text \<open>A database layer whose \<^verbatim>\<open>commit\<close> always raises.\<close>

definition db_commit_fails :: db where
  "db_commit_fails = \<lparr> settings_Session = (\<lambda>tr. Inr 1),
       session_commit = (\<lambda>tr s. Some (OperationalError ''server has gone away'')),
       session_rollback = (\<lambda>tr s. None), session_close = (\<lambda>tr s. None) \<rparr>"

text \<open>\<^verbatim>\<open>def always_locked(session=None)\<close>: raises \<^verbatim>\<open>OperationalError\<close> on every call.\<close>

definition always_locked :: pyfunc where
  "always_locked = \<lparr> co_varnames = [''session''],
       call = (\<lambda>tr args kwargs. Inl (OperationalError ''database is locked'')) \<rparr>"

definition RuntimeError :: "string \<Rightarrow> exn" where
  "RuntimeError m = Exn [''RuntimeError'', ''Exception'', ''BaseException''] m"

text \<open>A database layer whose \<^verbatim>\<open>rollback\<close> always raises.\<close>

definition db_rollback_fails :: db where
  "db_rollback_fails = \<lparr> settings_Session = (\<lambda>tr. Inr 1), session_commit = (\<lambda>tr s. None),
       session_rollback = (\<lambda>tr s. Some (RuntimeError ''connection lost'')),
       session_close = (\<lambda>tr s. None) \<rparr>"

section \<open>Histories and the retry loop\<close>

lemmas run_defs = wrapper_def session_in_kwargs_def session_in_args_def arg_session_def
  retryable_transaction_def create_session_def scope_except_def scope_finally_def
  isinstance_def OperationalError_def AttributeError_def ValueError_def
  RuntimeError_def flaky_def broken_def always_locked_def db_ok_def db_commit_fails_def
  db_rollback_fails_def Let_def

lemma calls_of_append [simp]: "calls_of (xs @ ys) = calls_of xs @ calls_of ys"
  by (induction xs rule: calls_of.induct) simp_all

lemma sessions_of_append [simp]: "sessions_of (xs @ ys) = sessions_of xs @ sessions_of ys"
  by (induction xs rule: sessions_of.induct) simp_all

lemma commits_of_append [simp]: "commits_of (xs @ ys) = commits_of xs @ commits_of ys"
  by (induction xs rule: commits_of.induct) simp_all

lemma rollbacks_of_append [simp]: "rollbacks_of (xs @ ys) = rollbacks_of xs @ rollbacks_of ys"
  by (induction xs rule: rollbacks_of.induct) simp_all

lemma closes_of_append [simp]: "closes_of (xs @ ys) = closes_of xs @ closes_of ys"
  by (induction xs rule: closes_of.induct) simp_all

lemma raised_of_append [simp]: "raised_of (xs @ ys) = raised_of xs @ raised_of ys"
  by (induction xs rule: raised_of.induct) simp_all

lemma rollback_on_frame:
  "rollback_on d s tr = (oc, tr') \<Longrightarrow>
     \<exists>evs. tr' = tr @ evs \<and> loop_events evs \<and> calls_of evs = []
       \<and> (case s of PSession sid \<Rightarrow> True | _ \<Rightarrow> evs = [])"
  by (cases s) (auto simp: loop_events_def Let_def)


lemma retry_loop_done:
  "attempts \<le> i \<Longrightarrow> retry_loop d f args kwargs s attempts excs i tr = (Inr PNone, tr)"
  by (simp add: retry_loop.simps)

lemma retry_loop_return:
  "i < attempts \<Longrightarrow> call f tr args kwargs = Inr v \<Longrightarrow>
   retry_loop d f args kwargs s attempts excs i tr = (Inr v, tr @ [EvCall args kwargs (Inr v)])"
  by (simp add: retry_loop.simps[of d f args kwargs s attempts excs i tr] Let_def)

lemma retry_loop_fatal:
  "i < attempts \<Longrightarrow> call f tr args kwargs = Inl e \<Longrightarrow> \<not> isinstance e excs \<Longrightarrow>
   retry_loop d f args kwargs s attempts excs i tr = (Inl e, tr @ [EvCall args kwargs (Inl e)])"
  by (simp add: retry_loop.simps[of d f args kwargs s attempts excs i tr] Let_def)

lemma retry_loop_exhausted:
  "call f tr args kwargs = Inl e \<Longrightarrow> isinstance e excs \<Longrightarrow>
   retry_loop d f args kwargs s attempts excs (attempts - 1) tr =
     (Inl e, tr @ [EvCall args kwargs (Inl e)])"
  by (simp add: retry_loop.simps[of d f args kwargs s attempts excs "attempts - 1" tr] Let_def)

lemma retry_loop_rollback_raises:
  "i < attempts - 1 \<Longrightarrow> call f tr args kwargs = Inl e \<Longrightarrow> isinstance e excs \<Longrightarrow>
   rollback_on d s (tr @ [EvCall args kwargs (Inl e)]) = (Some x, tr2) \<Longrightarrow>
   retry_loop d f args kwargs s attempts excs i tr = (Inl x, tr2)"
  by (simp add: retry_loop.simps[of d f args kwargs s attempts excs i tr] Let_def)

lemma retry_loop_again:
  "i < attempts - 1 \<Longrightarrow> call f tr args kwargs = Inl e \<Longrightarrow> isinstance e excs \<Longrightarrow>
   rollback_on d s (tr @ [EvCall args kwargs (Inl e)]) = (None, tr2) \<Longrightarrow>
   retry_loop d f args kwargs s attempts excs i tr =
     retry_loop d f args kwargs s attempts excs (i + 1) tr2"
  by (simp add: retry_loop.simps[of d f args kwargs s attempts excs i tr] Let_def)

text \<open>The ways one iteration of the loop can go.\<close>

lemma retry_loop_cases [consumes 1, case_names finished returned fatal exhausted rollback_raises again]:
  assumes run: "retry_loop d f args kwargs s attempts excs i tr = (r, tr')"
  obtains
    "attempts \<le> i" "r = Inr PNone" "tr' = tr"
  | v where "i < attempts" "call f tr args kwargs = Inr v" "r = Inr v"
      "tr' = tr @ [EvCall args kwargs (Inr v)]"
  | e where "i < attempts" "call f tr args kwargs = Inl e" "\<not> isinstance e excs" "r = Inl e"
      "tr' = tr @ [EvCall args kwargs (Inl e)]"
  | e where "i = attempts - 1" "call f tr args kwargs = Inl e" "isinstance e excs" "r = Inl e"
      "tr' = tr @ [EvCall args kwargs (Inl e)]"
  | e x where "i < attempts - 1" "call f tr args kwargs = Inl e" "isinstance e excs"
      "rollback_on d s (tr @ [EvCall args kwargs (Inl e)]) = (Some x, tr')" "r = Inl x"
  | e tr2 where "i < attempts - 1" "call f tr args kwargs = Inl e" "isinstance e excs"
      "rollback_on d s (tr @ [EvCall args kwargs (Inl e)]) = (None, tr2)"
      "retry_loop d f args kwargs s attempts excs (i + 1) tr2 = (r, tr')"
proof (cases "attempts \<le> i")
  case True
  from run have "r = Inr PNone" "tr' = tr"
    by (auto simp: retry_loop_done[OF True])
  with True show ?thesis by (rule that(1))
next
  case False
  then have lt: "i < attempts" by simp
  show ?thesis
  proof (cases "call f tr args kwargs")
    case (Inr v)
    from run have "r = Inr v" "tr' = tr @ [EvCall args kwargs (Inr v)]"
      by (auto simp: retry_loop_return[OF lt Inr])
    with lt Inr show ?thesis by (rule that(2))
  next
    case (Inl e)
    show ?thesis
    proof (cases "isinstance e excs")
      case False
      from run have "r = Inl e" "tr' = tr @ [EvCall args kwargs (Inl e)]"
        by (auto simp: retry_loop_fatal[OF lt Inl False])
      with lt Inl False show ?thesis by (rule that(3))
    next
      case True
      show ?thesis
      proof (cases "i = attempts - 1")
        case last: True
        from run have "r = Inl e" "tr' = tr @ [EvCall args kwargs (Inl e)]"
          by (auto simp: last retry_loop_exhausted[OF Inl True])
        with last Inl True show ?thesis by (rule that(4))
      next
        case False
        with lt have lt1: "i < attempts - 1" by simp
        obtain oc tr2 where rb: "rollback_on d s (tr @ [EvCall args kwargs (Inl e)]) = (oc, tr2)"
          by (cases "rollback_on d s (tr @ [EvCall args kwargs (Inl e)])")
        show ?thesis
        proof (cases oc)
          case None
          with rb have rb': "rollback_on d s (tr @ [EvCall args kwargs (Inl e)]) = (None, tr2)"
            by simp
          from run have "retry_loop d f args kwargs s attempts excs (i + 1) tr2 = (r, tr')"
            by (simp add: retry_loop_again[OF lt1 Inl True rb'])
          with lt1 Inl True rb' show ?thesis by (rule that(6))
        next
          case (Some x)
          with rb have rb': "rollback_on d s (tr @ [EvCall args kwargs (Inl e)]) = (Some x, tr2)"
            by simp
          from run have "r = Inl x" "tr' = tr2"
            by (auto simp: retry_loop_rollback_raises[OF lt1 Inl True rb'])
          with lt1 Inl True rb' show ?thesis by (auto intro: that(5))
        qed
      qed
    qed
  qed
qed

lemma retry_loop_frame:
  "retry_loop d f args kwargs s attempts excs i tr = (r, tr') \<Longrightarrow>
     \<exists>evs. tr' = tr @ evs \<and> loop_events evs"
proof (induction "nat (attempts - i)" arbitrary: i tr)
  case 0
  then show ?case by (simp add: retry_loop_done loop_events_def)
next
  case (Suc n)
  from Suc.prems show ?case
  proof (cases rule: retry_loop_cases)
    case (rollback_raises e x)
    with rollback_on_frame[OF rollback_raises(4)] show ?thesis
      by (auto simp: loop_events_def)
  next
    case (again e tr2)
    from Suc.hyps(2) again(1) have "n = nat (attempts - (i + 1))" by simp
    from Suc.hyps(1)[OF this again(5)] obtain evs where "tr' = tr2 @ evs" "loop_events evs"
      by auto
    with rollback_on_frame[OF again(4)] show ?thesis
      by (auto simp: loop_events_def)
  qed (auto simp: loop_events_def)
qed

section \<open>The scope and the loop together\<close>

lemma retryable_transaction_frame:
  "retryable_transaction d f args kwargs s attempts excs tr = (r, tr') \<Longrightarrow>
     sessions_of tr' = sessions_of tr \<and> commits_of tr' = commits_of tr \<and> closes_of tr' = closes_of tr"
  unfolding retryable_transaction_def
  by (drule retry_loop_frame) (auto simp: loop_events_def)

lemma scope_finally_closes:
  "closes_of (snd (scope_finally d sid r tr)) = closes_of tr @ [sid]"
  by (simp add: scope_finally_def Let_def split: option.splits)

lemma scope_except_closes:
  "closes_of (snd (scope_except d sid e tr)) = closes_of tr @ [sid]"
  by (simp add: scope_except_def Let_def scope_finally_closes split: option.splits)

lemma create_session_closes:
  assumes body: "\<And>s tr0 r1 tr1. body s tr0 = (r1, tr1) \<Longrightarrow> closes_of tr1 = closes_of tr0"
  shows "closes_of (snd (create_session d body tr)) =
           closes_of tr @ (case settings_Session d tr of Inr sid \<Rightarrow> [sid] | Inl x \<Rightarrow> [])"
proof (cases "settings_Session d tr")
  case (Inl x)
  then show ?thesis by (simp add: create_session_def)
next
  case (Inr sid)
  obtain r1 tr1 where b: "body (PSession sid) (tr @ [EvSession (Inr sid)]) = (r1, tr1)"
    by (cases "body (PSession sid) (tr @ [EvSession (Inr sid)])")
  from body[OF b] have c: "closes_of tr1 = closes_of tr" by simp
  show ?thesis
    using Inr b c
    by (cases r1)
       (simp_all add: create_session_def Let_def scope_except_closes scope_finally_closes
         split: option.splits)
qed

lemma scope_finally_Inl: "\<exists>x. fst (scope_finally d sid (Inl e) tr) = Inl x"
  by (simp add: scope_finally_def Let_def split: option.splits)

lemma rollback_on_events:
  "rollback_on d s tr = (oc, tr') \<Longrightarrow> tr' = tr \<or> (\<exists>sid. tr' = tr @ [EvRollback sid oc])"
  by (cases s) (auto simp: Let_def)

lemma retry_loop_fatal_last:
  "retry_loop d f args kwargs s attempts excs i tr = (r, tr') \<Longrightarrow>
   tr' = tr @ pre @ EvCall a k (Inl e) # post \<Longrightarrow> \<not> isinstance e excs \<Longrightarrow>
   post = [] \<and> r = Inl e"
proof (induction "nat (attempts - i)" arbitrary: i tr pre)
  case 0
  then show ?case by (simp add: retry_loop_done)
next
  case (Suc n)
  from Suc.prems(1) show ?case
  proof (cases rule: retry_loop_cases)
    case finished
    with Suc.prems(2) show ?thesis by simp
  next
    case (returned v)
    with Suc.prems(2) show ?thesis by (auto simp: Cons_eq_append_conv append_eq_Cons_conv)
  next
    case (fatal e0)
    with Suc.prems(2) show ?thesis by (auto simp: Cons_eq_append_conv append_eq_Cons_conv)
  next
    case (exhausted e0)
    with Suc.prems(2,3) show ?thesis by (auto simp: Cons_eq_append_conv append_eq_Cons_conv)
  next
    case (rollback_raises e0 x)
    from rollback_on_events[OF rollback_raises(4)] Suc.prems(2,3) rollback_raises(3)
    show ?thesis by (auto simp: Cons_eq_append_conv append_eq_Cons_conv)
  next
    case (again e0 tr2)
    from Suc.hyps(2) again(1) have n: "n = nat (attempts - (i + 1))" by simp
    from retry_loop_frame[OF again(5)] obtain evs where evs: "tr' = tr2 @ evs" by auto
    from rollback_on_events[OF again(4)] Suc.prems(2,3) again(3) evs
    obtain pre2 where "tr' = tr2 @ pre2 @ EvCall a k (Inl e) # post"
      by (auto simp: Cons_eq_append_conv append_eq_Cons_conv)
    from Suc.hyps(1)[OF n again(5) this Suc.prems(3)] show ?thesis .
  qed
qed

lemma scope_except_Inl: "\<exists>x. fst (scope_except d sid e tr) = Inl x"
  by (simp add: scope_except_def scope_finally_def Let_def split: option.splits)

lemma scope_except_raises: "scope_except d sid e tr = (r, tr') \<Longrightarrow> \<exists>x. r = Inl x"
  using scope_except_Inl[of d sid e tr] by simp

lemma retry_loop_success:
  "retry_loop d f args kwargs s attempts excs i tr = (Inr v, tr') \<Longrightarrow>
   \<exists>body. tr' = tr @ body \<and> loop_events body
     \<and> (i < attempts \<longrightarrow> (\<exists>pre. body = pre @ [EvCall args kwargs (Inr v)]))"
proof (induction "nat (attempts - i)" arbitrary: i tr)
  case 0
  then show ?case by (simp add: retry_loop_done loop_events_def)
next
  case (Suc n)
  from Suc.prems show ?case
  proof (cases rule: retry_loop_cases)
    case finished
    then show ?thesis by (simp add: loop_events_def)
  next
    case (returned v')
    then show ?thesis by (simp add: loop_events_def)
  next
    case (again e tr2)
    from Suc.hyps(2) again(1) have n: "n = nat (attempts - (i + 1))" by simp
    from again(1) have lt: "i + 1 < attempts" by simp
    from Suc.hyps(1)[OF n again(5)] lt obtain body pre where
      b: "tr' = tr2 @ body" "loop_events body" "body = pre @ [EvCall args kwargs (Inr v)]"
      by auto
    from rollback_on_frame[OF again(4)] obtain evs where
      e: "tr2 = tr @ [EvCall args kwargs (Inl e)] @ evs" "loop_events evs" by auto
    have "tr' = tr @ ([EvCall args kwargs (Inl e)] @ evs @ body)" using b e by simp
    moreover have "loop_events ([EvCall args kwargs (Inl e)] @ evs @ body)"
      using b e by (simp add: loop_events_def)
    moreover have "[EvCall args kwargs (Inl e)] @ evs @ body
        = ([EvCall args kwargs (Inl e)] @ evs @ pre) @ [EvCall args kwargs (Inr v)]"
      using b by simp
    ultimately show ?thesis by blast
  qed simp_all
qed

lemma retry_loop_succeeds_on_Nth:
  assumes fails: "\<And>h. length (calls_of h) < c + n \<Longrightarrow>
                    \<exists>e. call f h args kwargs = Inl e \<and> isinstance e excs"
    and ok: "\<And>h. length (calls_of h) = c + n \<Longrightarrow> call f h args kwargs = Inr v"
    and rb: "\<And>h. session_rollback d h sid = None"
  shows "length (calls_of tr) = c + k \<Longrightarrow> k \<le> n \<Longrightarrow>
         \<exists>tr'. retry_loop d f args kwargs (PSession sid) (int n + 1) excs (int k) tr = (Inr v, tr')
              \<and> length (calls_of tr') = c + n + 1"
proof (induction "n - k" arbitrary: k tr)
  case 0
  then have kn: "k = n" by simp
  with 0 ok have "call f tr args kwargs = Inr v" by simp
  from retry_loop_return[OF _ this, of "int k" "int n + 1" d "PSession sid" excs] kn 0(2)
  show ?case by simp
next
  case (Suc m)
  then have lt: "k < n" by simp
  with Suc.prems fails obtain e where e: "call f tr args kwargs = Inl e" "isinstance e excs"
    by (metis add_less_cancel_left)
  let ?tr2 = "tr @ [EvCall args kwargs (Inl e), EvRollback sid None]"
  have rbo: "rollback_on d (PSession sid) (tr @ [EvCall args kwargs (Inl e)]) = (None, ?tr2)"
    by (simp add: rb)
  have step: "retry_loop d f args kwargs (PSession sid) (int n + 1) excs (int k) tr =
      retry_loop d f args kwargs (PSession sid) (int n + 1) excs (int k + 1) ?tr2"
    using retry_loop_again[OF _ e rbo, of "int k" "int n + 1"] lt by simp
  have "m = n - Suc k" using Suc.hyps(2) by simp
  moreover have "length (calls_of ?tr2) = c + Suc k" using Suc.prems(1) by simp
  moreover have "Suc k \<le> n" using lt by simp
  ultimately obtain tr' where
    "retry_loop d f args kwargs (PSession sid) (int n + 1) excs (int (Suc k)) ?tr2 = (Inr v, tr')"
    "length (calls_of tr') = c + n + 1"
    using Suc.hyps(1) by blast
  with step show ?case by (simp add: add.commute)
qed

text \<open>
  With a session object in the keyword argument the retry bound holds: \<open>n\<close> retryable
  failures followed by a value, with \<open>n + 1\<close> attempts allowed, give that value after
  exactly \<open>n + 1\<close> calls.
\<close>

lemma retry_bound_keyword_session:
  assumes kw: "map_of kwargs arg_session = Some (PSession sid)"
    and fails: "\<And>h. length (calls_of h) < length (calls_of tr) + n \<Longrightarrow>
                    \<exists>e. call f h args kwargs = Inl e \<and> isinstance e excs"
    and ok: "\<And>h. length (calls_of h) = length (calls_of tr) + n \<Longrightarrow> call f h args kwargs = Inr v"
    and rb: "\<And>h. session_rollback d h sid = None"
  shows "\<exists>tr'. wrapper d f (int n + 1) excs args kwargs tr = (Inr v, tr')
              \<and> length (calls_of tr') = length (calls_of tr) + n + 1"
proof -
  have "\<exists>tr'. retry_loop d f args kwargs (PSession sid) (int n + 1) excs (int 0) tr = (Inr v, tr')
              \<and> length (calls_of tr') = length (calls_of tr) + n + 1"
    by (rule retry_loop_succeeds_on_Nth[OF fails ok rb]) simp_all
  with kw show ?thesis
    by (simp add: wrapper_def session_in_kwargs_def retryable_transaction_def)
qed

text \<open>The same when the decorator creates the session, and commits and closes it.\<close>

lemma retry_bound_owned_session:
  assumes absent: "\<not> session_in_kwargs kwargs" "\<not> session_in_args (co_varnames f) args"
    and fac: "settings_Session d tr = Inr sid"
    and fails: "\<And>h. length (calls_of h) < length (calls_of tr) + n \<Longrightarrow>
        \<exists>e. call f h args (AList.update arg_session (PSession sid) kwargs) = Inl e
             \<and> isinstance e excs"
    and ok: "\<And>h. length (calls_of h) = length (calls_of tr) + n \<Longrightarrow>
        call f h args (AList.update arg_session (PSession sid) kwargs) = Inr v"
    and rb: "\<And>h. session_rollback d h sid = None"
    and cm: "\<And>h. session_commit d h sid = None"
    and cl: "\<And>h. session_close d h sid = None"
  shows "\<exists>tr'. wrapper d f (int n + 1) excs args kwargs tr = (Inr v, tr')
              \<and> length (calls_of tr') = length (calls_of tr) + n + 1"
proof -
  let ?t0 = "tr @ [EvSession (Inr sid)]"
  have "\<exists>tr1. retry_loop d f args (AList.update arg_session (PSession sid) kwargs) (PSession sid)
       (int n + 1) excs (int 0) ?t0 = (Inr v, tr1)
     \<and> length (calls_of tr1) = length (calls_of tr) + n + 1"
    by (rule retry_loop_succeeds_on_Nth[OF fails ok rb]) simp_all
  then obtain tr1 where
    "retry_loop d f args (AList.update arg_session (PSession sid) kwargs) (PSession sid)
       (int n + 1) excs 0 ?t0 = (Inr v, tr1)"
    "length (calls_of tr1) = length (calls_of tr) + n + 1"
    by auto
  with absent fac show ?thesis
    by (simp add: wrapper_def Let_def create_session_def retryable_transaction_def
        scope_finally_def cm cl)
qed

text \<open>
  The positional branch gives the loop a string. Whatever the collaborators do, no session
  is rolled back on that path and the function is called at most once; as soon as a second
  attempt is allowed, a retryable failure of the first call ends in \<^verbatim>\<open>AttributeError\<close>.
\<close>

lemma retry_loop_string_session:
  "retry_loop d f args kwargs (PStr x) attempts excs i tr = (r, tr') \<Longrightarrow>
   rollbacks_of tr' = rollbacks_of tr \<and> length (calls_of tr') \<le> length (calls_of tr) + 1"
  by (cases rule: retry_loop_cases) auto

lemma positional_session_never_rolled_back:
  assumes "\<not> session_in_kwargs kwargs" and "session_in_args (co_varnames f) args"
    and "wrapper d f attempts excs args kwargs tr = (r, tr')"
  shows "rollbacks_of tr' = rollbacks_of tr \<and> length (calls_of tr') \<le> length (calls_of tr) + 1"
  using assms
  by (auto simp: wrapper_def Let_def retryable_transaction_def dest: retry_loop_string_session)

lemma positional_session_retry_raises_AttributeError:
  assumes "\<not> session_in_kwargs kwargs" and "session_in_args (co_varnames f) args"
    and "2 \<le> attempts"
    and "call f tr args kwargs = Inl e" and "isinstance e excs"
  shows "wrapper d f attempts excs args kwargs tr =
           (Inl (AttributeError (no_attribute ''str'' ''rollback'')),
            tr @ [EvCall args kwargs (Inl e)])"
proof -
  have "0 < attempts - 1" using assms(3) by simp
  from retry_loop_rollback_raises[OF this assms(4,5)] assms(1,2) show ?thesis
    by (simp add: wrapper_def Let_def retryable_transaction_def)
qed



section \<open>Claims\<close>

text \<open>
  C1. A call that supplies the session as a positional argument should retry with the
  caller's session: a rollback between attempts should be a rollback of that session. The
  decorator hands the loop the name of the parameter instead, the string \<^verbatim>\<open>"session"\<close>.
  With \<^verbatim>\<open>attempts=2\<close> and a function that raises \<^verbatim>\<open>OperationalError\<close> on its first
  call, the call with the session 7 in first position raises \<^verbatim>\<open>AttributeError\<close> after a
  single attempt, and session 7 is never rolled back.
\<close>

theorem positional_session_name_not_value:
  "wrapper db_ok (flaky 1) 2 [''OperationalError''] [PSession 7] [] [] =
     (Inl (AttributeError (no_attribute ''str'' ''rollback'')),
      [EvCall [PSession 7] [] (Inl (OperationalError ''database is locked''))])"
  by (simp add: wrapper_def session_in_kwargs_def session_in_args_def arg_session_def
      retryable_transaction_def retry_loop.simps flaky_def db_ok_def isinstance_def
      OperationalError_def)

text \<open>
  C3. With \<^verbatim>\<open>attempts = N\<close>, \<open>N - 1\<close> retryable failures and then a value, the call should
  return the value after exactly \<open>N\<close> calls of the function. The lemmas
  \<open>retry_bound_keyword_session\<close> and \<open>retry_bound_owned_session\<close> show this for a session
  passed by keyword and for a session created by the decorator. For a session passed by
  position it fails from \<open>N = 2\<close> on: the function below raises once and would return
  \<^verbatim>\<open>"ok"\<close> on its second call, but the loop was handed the string \<^verbatim>\<open>"session"\<close>, its
  rollback raises \<^verbatim>\<open>AttributeError\<close>, and the function is called only once.
\<close>

theorem retry_bound_fails_for_positional_session:
  "call (flaky 1) [] [PSession 7] [] = Inl (OperationalError ''database is locked'')
   \<and> isinstance (OperationalError ''database is locked'') [''OperationalError'']
   \<and> call (flaky 1) [EvCall [PSession 7] [] (Inl (OperationalError ''database is locked''))]
        [PSession 7] [] = Inr (PStr ''ok'')
   \<and> fst (wrapper db_ok (flaky 1) 2 [''OperationalError''] [PSession 7] [] []) \<noteq> Inr (PStr ''ok'')
   \<and> length (calls_of (snd (wrapper db_ok (flaky 1) 2 [''OperationalError''] [PSession 7] [] [])))
        = 1"
  by (simp add: run_defs retry_loop.simps)

text \<open>
  C2. When the caller supplies no session, the session the decorator obtained from the
  factory is closed exactly once, whatever happens in between: the trace gains exactly one
  \<^verbatim>\<open>close\<close>, on that session (and none when the factory itself raised and there is no
  session). This holds for every behaviour of the function and of \<^verbatim>\<open>commit\<close>,
  \<^verbatim>\<open>rollback\<close> and \<^verbatim>\<open>close\<close>, so on success, on a failure that is not retried, on exhausted
  retries and when \<^verbatim>\<open>commit\<close> or \<^verbatim>\<open>rollback\<close> raise. When the caller supplies the session,
  by keyword or by position, the decorator closes nothing.
\<close>

theorem handle_closed_exactly_once:
  assumes run: "wrapper d f attempts excs args kwargs tr = (r, tr')"
  shows "(\<not> session_in_kwargs kwargs \<and> \<not> session_in_args (co_varnames f) args \<longrightarrow>
            closes_of tr' =
              closes_of tr @ (case settings_Session d tr of Inr sid \<Rightarrow> [sid] | Inl x \<Rightarrow> []))
       \<and> (session_in_kwargs kwargs \<or> session_in_args (co_varnames f) args \<longrightarrow>
            closes_of tr' = closes_of tr)"
proof (intro conjI impI)
  assume absent: "\<not> session_in_kwargs kwargs \<and> \<not> session_in_args (co_varnames f) args"
  let ?body = "\<lambda>session. retryable_transaction d f args
                 (AList.update arg_session session kwargs) session attempts excs"
  from absent run have "create_session d ?body tr = (r, tr')"
    by (simp add: wrapper_def Let_def)
  then have "tr' = snd (create_session d ?body tr)" by simp
  then show "closes_of tr' =
      closes_of tr @ (case settings_Session d tr of Inr sid \<Rightarrow> [sid] | Inl x \<Rightarrow> [])"
    by (simp add: create_session_closes retryable_transaction_frame)
next
  assume supplied: "session_in_kwargs kwargs \<or> session_in_args (co_varnames f) args"
  show "closes_of tr' = closes_of tr"
  proof (cases "session_in_kwargs kwargs")
    case True
    with run show ?thesis
      by (auto simp: wrapper_def dest: retryable_transaction_frame)
  next
    case False
    with supplied run show ?thesis
      by (auto simp: wrapper_def Let_def dest: retryable_transaction_frame)
  qed
qed

theorem handle_closed_exactly_once_witness:
  "wrapper db_commit_fails (flaky 0) 2 [''OperationalError''] [] [] [] =
     (Inl (OperationalError ''server has gone away''),
      [EvSession (Inr 1), EvCall [] [(''session'', PSession 1)] (Inr (PStr ''ok'')),
       EvCommit 1 (Some (OperationalError ''server has gone away'')),
       EvRollback 1 None, EvClose 1 None])
   \<and> \<not> session_in_kwargs [] \<and> \<not> session_in_args (co_varnames (flaky 0)) []
   \<and> closes_of [EvSession (Inr 1), EvCall [] [(''session'', PSession 1)] (Inr (PStr ''ok'')),
       EvCommit 1 (Some (OperationalError ''server has gone away'')),
       EvRollback 1 None, EvClose 1 None] = closes_of [] @ [1]"
proof -
  have h: "wrapper db_commit_fails (flaky 0) 2 [''OperationalError''] [] [] [] =
     (Inl (OperationalError ''server has gone away''),
      [EvSession (Inr 1), EvCall [] [(''session'', PSession 1)] (Inr (PStr ''ok'')),
       EvCommit 1 (Some (OperationalError ''server has gone away'')),
       EvRollback 1 None, EvClose 1 None])"
    by (simp add: run_defs retry_loop.simps)
  have a: "\<not> session_in_kwargs [] \<and> \<not> session_in_args (co_varnames (flaky 0)) []"
    by (simp add: run_defs)
  have s: "settings_Session db_commit_fails [] = Inr 1"
    by (simp add: db_commit_fails_def)
  from handle_closed_exactly_once[OF h] a s h show ?thesis by simp
qed




text \<open>
  C8. When the caller supplies the session, by keyword or by position, the session factory
  is not called and no session is closed.
\<close>

theorem supplied_session_untouched:
  assumes supplied: "session_in_kwargs kwargs \<or> session_in_args (co_varnames f) args"
    and run: "wrapper d f attempts excs args kwargs tr = (r, tr')"
  shows "sessions_of tr' = sessions_of tr \<and> closes_of tr' = closes_of tr"
proof (cases "session_in_kwargs kwargs")
  case True
  with run show ?thesis
    by (auto simp: wrapper_def dest: retryable_transaction_frame)
next
  case False
  with supplied run show ?thesis
    by (auto simp: wrapper_def Let_def dest: retryable_transaction_frame)
qed

theorem supplied_session_untouched_witness:
  "(session_in_kwargs [(''session'', PSession 7)] \<or> session_in_args (co_varnames (flaky 1)) [])
   \<and> wrapper db_ok (flaky 1) 2 [''OperationalError''] [] [(''session'', PSession 7)] [] =
       (Inr (PStr ''ok''),
        [EvCall [] [(''session'', PSession 7)] (Inl (OperationalError ''database is locked'')),
         EvRollback 7 None,
         EvCall [] [(''session'', PSession 7)] (Inr (PStr ''ok''))])
   \<and> sessions_of
        [EvCall [] [(''session'', PSession 7)] (Inl (OperationalError ''database is locked'')),
         EvRollback 7 None,
         EvCall [] [(''session'', PSession 7)] (Inr (PStr ''ok''))] = sessions_of []
   \<and> closes_of
        [EvCall [] [(''session'', PSession 7)] (Inl (OperationalError ''database is locked'')),
         EvRollback 7 None,
         EvCall [] [(''session'', PSession 7)] (Inr (PStr ''ok''))] = closes_of []"
proof -
  have h1: "session_in_kwargs [(''session'', PSession 7)] \<or> session_in_args (co_varnames (flaky 1)) []"
    by (simp add: run_defs)
  have h2: "wrapper db_ok (flaky 1) 2 [''OperationalError''] [] [(''session'', PSession 7)] [] =
       (Inr (PStr ''ok''),
        [EvCall [] [(''session'', PSession 7)] (Inl (OperationalError ''database is locked'')),
         EvRollback 7 None,
         EvCall [] [(''session'', PSession 7)] (Inr (PStr ''ok''))])"
    by (simp add: run_defs retry_loop.simps)
  from supplied_session_untouched[OF h1 h2] h1 h2 show ?thesis by blast
qed

text \<open>
  C10. With \<^verbatim>\<open>attempts <= 0\<close> and no session supplied, the function is never called and the
  call returns \<^verbatim>\<open>None\<close>; all the same a session is created, committed and closed (the
  factory, \<^verbatim>\<open>commit\<close> and \<^verbatim>\<open>close\<close> not raising).
\<close>

theorem no_attempts_returns_None:
  assumes "attempts \<le> 0"
    and "\<not> session_in_kwargs kwargs" and "\<not> session_in_args (co_varnames f) args"
    and "settings_Session d tr = Inr sid"
    and "session_commit d (tr @ [EvSession (Inr sid)]) sid = None"
    and "session_close d (tr @ [EvSession (Inr sid), EvCommit sid None]) sid = None"
  shows "wrapper d f attempts excs args kwargs tr =
           (Inr PNone, tr @ [EvSession (Inr sid), EvCommit sid None, EvClose sid None])"
  using assms
  by (simp add: wrapper_def Let_def create_session_def retryable_transaction_def
      retry_loop_done scope_finally_def)

theorem no_attempts_returns_None_witness:
  "(0::int) \<le> 0 \<and> \<not> session_in_kwargs [] \<and> \<not> session_in_args (co_varnames (flaky 1)) []
   \<and> settings_Session db_ok [] = Inr 1
   \<and> session_commit db_ok ([] @ [EvSession (Inr 1)]) 1 = None
   \<and> session_close db_ok ([] @ [EvSession (Inr 1), EvCommit 1 None]) 1 = None
   \<and> wrapper db_ok (flaky 1) 0 [''OperationalError''] [] [] [] =
           (Inr PNone, [] @ [EvSession (Inr 1), EvCommit 1 None, EvClose 1 None])"
proof -
  have h1: "(0::int) \<le> 0" by simp
  have h2: "\<not> session_in_kwargs []" by (simp add: run_defs)
  have h3: "\<not> session_in_args (co_varnames (flaky 1)) []" by (simp add: run_defs)
  have h4: "settings_Session db_ok [] = Inr 1" by (simp add: db_ok_def)
  have h5: "session_commit db_ok ([] @ [EvSession (Inr 1)]) 1 = None" by (simp add: db_ok_def)
  have h6: "session_close db_ok ([] @ [EvSession (Inr 1), EvCommit 1 None]) 1 = None"
    by (simp add: db_ok_def)
  from no_attempts_returns_None[OF h1 h2 h3 h4 h5 h6, of "[''OperationalError'']"]
    h1 h2 h3 h4 h5 h6 show ?thesis by blast
qed

text \<open>
  C9. The session is supplied by keyword. Whenever a call of the function raises a failure
  that is not in the retryable set, that call is the last thing that happens: the loop
  performs no rollback, makes no further attempt, and the failure is what the call raises.
\<close>

theorem fatal_failure_ends_the_call:
  assumes kw: "session_in_kwargs kwargs"
    and run: "wrapper d f attempts excs args kwargs tr = (r, tr')"
    and ev: "tr' = tr @ pre @ EvCall a k (Inl e) # post"
    and fatal: "\<not> isinstance e excs"
  shows "post = [] \<and> r = Inl e"
proof -
  from kw run have "retry_loop d f args kwargs (the (map_of kwargs arg_session)) attempts excs 0 tr
      = (r, tr')"
    by (simp add: wrapper_def retryable_transaction_def)
  from retry_loop_fatal_last[OF this ev fatal] show ?thesis .
qed

theorem fatal_failure_ends_the_call_witness:
  "session_in_kwargs [(''session'', PSession 7)]
   \<and> wrapper db_ok broken 2 [''OperationalError''] [] [(''session'', PSession 7)] [] =
       (Inl (ValueError ''bad input''),
        [EvCall [] [(''session'', PSession 7)] (Inl (ValueError ''bad input''))])
   \<and> [EvCall [] [(''session'', PSession 7)] (Inl (ValueError ''bad input''))] =
        [] @ [] @ EvCall [] [(''session'', PSession 7)] (Inl (ValueError ''bad input'')) # []
   \<and> \<not> isinstance (ValueError ''bad input'') [''OperationalError'']
   \<and> rollbacks_of [EvCall [] [(''session'', PSession 7)] (Inl (ValueError ''bad input''))] = []"
proof -
  have h1: "session_in_kwargs [(''session'', PSession 7)]" by (simp add: run_defs)
  have h2: "wrapper db_ok broken 2 [''OperationalError''] [] [(''session'', PSession 7)] [] =
       (Inl (ValueError ''bad input''),
        [EvCall [] [(''session'', PSession 7)] (Inl (ValueError ''bad input''))])"
    by (simp add: run_defs retry_loop.simps)
  have h3: "[EvCall [] [(''session'', PSession 7)] (Inl (ValueError ''bad input''))] =
        [] @ [] @ EvCall [] [(''session'', PSession 7)] (Inl (ValueError ''bad input'')) # []"
    by simp
  have h4: "\<not> isinstance (ValueError ''bad input'') [''OperationalError'']"
    by (simp add: run_defs)
  from fatal_failure_ends_the_call[OF h1 h2 h3 h4] h1 h2 h3 h4 show ?thesis by simp
qed

text \<open>
  C4. A call without a supplied session that returns a value \<open>v\<close>: the history it adds is
  the factory call, the events of the loop (none of them a commit), then one \<^verbatim>\<open>commit\<close>
  and one \<^verbatim>\<open>close\<close> of the session the factory returned, both without raising. So the
  session is committed exactly once, and after every call of the function; when at least
  one attempt is allowed, the event just before the commit is the call of the function that
  returned \<open>v\<close>.
\<close>

theorem commit_once_after_success:
  assumes absent: "\<not> session_in_kwargs kwargs" "\<not> session_in_args (co_varnames f) args"
    and run: "wrapper d f attempts excs args kwargs tr = (Inr v, tr')"
  shows "\<exists>sid body. settings_Session d tr = Inr sid
       \<and> tr' = tr @ EvSession (Inr sid) # body @ [EvCommit sid None, EvClose sid None]
       \<and> commits_of body = []
       \<and> (0 < attempts \<longrightarrow>
            (\<exists>pre. body = pre @ [EvCall args (AList.update arg_session (PSession sid) kwargs) (Inr v)]))"
proof -
  let ?body = "\<lambda>session. retryable_transaction d f args
                 (AList.update arg_session session kwargs) session attempts excs"
  from absent run have cs: "create_session d ?body tr = (Inr v, tr')"
    by (simp add: wrapper_def Let_def)
  then obtain sid where fac: "settings_Session d tr = Inr sid"
    by (cases "settings_Session d tr") (auto simp: create_session_def)
  let ?t0 = "tr @ [EvSession (Inr sid)]"
  obtain r1 tr1 where b: "?body (PSession sid) ?t0 = (r1, tr1)"
    by (cases "?body (PSession sid) ?t0")
  have r1: "r1 = Inr v \<and> tr' = tr1 @ [EvCommit sid None, EvClose sid None]"
  proof (cases r1)
    case (Inl e)
    with cs fac b have "scope_except d sid e tr1 = (Inr v, tr')"
      by (simp add: create_session_def)
    from scope_except_raises[OF this] show ?thesis by simp
  next
    case (Inr v1)
    show ?thesis
    proof (cases "session_commit d tr1 sid")
      case (Some x)
      with cs fac b Inr have "scope_except d sid x (tr1 @ [EvCommit sid (Some x)]) = (Inr v, tr')"
        by (simp add: create_session_def)
      from scope_except_raises[OF this] show ?thesis by simp
    next
      case None
      with cs fac b Inr show ?thesis
        by (auto simp: create_session_def scope_finally_def Let_def split: option.splits)
    qed
  qed
  with b have "retry_loop d f args (AList.update arg_session (PSession sid) kwargs)
      (PSession sid) attempts excs 0 ?t0 = (Inr v, tr1)"
    by (simp add: retryable_transaction_def)
  from retry_loop_success[OF this] obtain body where
    body: "tr1 = ?t0 @ body" "loop_events body"
      "0 < attempts \<longrightarrow>
         (\<exists>pre. body = pre @ [EvCall args (AList.update arg_session (PSession sid) kwargs) (Inr v)])"
    by blast
  from r1 body(1) have "tr' = tr @ EvSession (Inr sid) # body @ [EvCommit sid None, EvClose sid None]"
    by simp
  with fac body(2,3) show ?thesis
    by (auto simp: loop_events_def)
qed

theorem commit_once_after_success_witness:
  "\<not> session_in_kwargs [] \<and> \<not> session_in_args (co_varnames (flaky 1)) []
   \<and> wrapper db_ok (flaky 1) 2 [''OperationalError''] [] [] [] =
       (Inr (PStr ''ok''),
        [] @ EvSession (Inr 1)
         # [EvCall [] [(''session'', PSession 1)] (Inl (OperationalError ''database is locked'')),
            EvRollback 1 None,
            EvCall [] [(''session'', PSession 1)] (Inr (PStr ''ok''))]
         @ [EvCommit 1 None, EvClose 1 None])
   \<and> (\<exists>sid body. settings_Session db_ok [] = Inr sid
       \<and> [] @ EvSession (Inr 1)
         # [EvCall [] [(''session'', PSession 1)] (Inl (OperationalError ''database is locked'')),
            EvRollback 1 None,
            EvCall [] [(''session'', PSession 1)] (Inr (PStr ''ok''))]
         @ [EvCommit 1 None, EvClose 1 None]
         = [] @ EvSession (Inr sid) # body @ [EvCommit sid None, EvClose sid None]
       \<and> commits_of body = [])"
proof -
  have h1: "\<not> session_in_kwargs []" by (simp add: run_defs)
  have h2: "\<not> session_in_args (co_varnames (flaky 1)) []" by (simp add: run_defs)
  have h3: "wrapper db_ok (flaky 1) 2 [''OperationalError''] [] [] [] =
       (Inr (PStr ''ok''),
        [] @ EvSession (Inr 1)
         # [EvCall [] [(''session'', PSession 1)] (Inl (OperationalError ''database is locked'')),
            EvRollback 1 None,
            EvCall [] [(''session'', PSession 1)] (Inr (PStr ''ok''))]
         @ [EvCommit 1 None, EvClose 1 None])"
    by (simp add: run_defs retry_loop.simps)
  from commit_once_after_success[OF h1 h2 h3] h1 h2 h3 show ?thesis by blast
qed

text \<open>
  C5. \<^verbatim>\<open>attempts=3\<close>, no session supplied, and a function that raises a retryable failure on
  every call. As stated, with exactly two rollbacks, the claim fails: the loop rolls back
  twice between the attempts, and the third failure then leaves the \<^verbatim>\<open>with\<close> block through
  the \<^verbatim>\<open>except Exception\<close> clause of \<^verbatim>\<open>create_session\<close>, which rolls back once more.
\<close>

theorem exhaustion_rolls_back_three_times:
  "wrapper db_ok always_locked 3 [''OperationalError''] [] [] [] =
     (Inl (OperationalError ''database is locked''),
      [EvSession (Inr 1),
       EvCall [] [(''session'', PSession 1)] (Inl (OperationalError ''database is locked'')),
       EvRollback 1 None,
       EvCall [] [(''session'', PSession 1)] (Inl (OperationalError ''database is locked'')),
       EvRollback 1 None,
       EvCall [] [(''session'', PSession 1)] (Inl (OperationalError ''database is locked'')),
       EvRollback 1 None,
       EvClose 1 None])
   \<and> length (rollbacks_of (snd (wrapper db_ok always_locked 3 [''OperationalError''] [] [] []))) \<noteq> 2"
  by (simp add: run_defs retry_loop.simps)

text \<open>
  C5, as the code has it (the factory, \<^verbatim>\<open>rollback\<close> and \<^verbatim>\<open>close\<close> not raising): the call
  raises the failure of the third attempt, the function is called exactly 3 times, the
  session is closed once and never committed, and it is rolled back 3 times when the
  failure is an \<^verbatim>\<open>Exception\<close> (as \<^verbatim>\<open>OperationalError\<close> is): twice by the loop and once by
  the scope. Only a retryable failure outside \<^verbatim>\<open>Exception\<close> passes the scope without the
  third rollback.
\<close>

theorem exhaustion_owned_three_attempts:
  assumes absent: "\<not> session_in_kwargs kwargs" "\<not> session_in_args (co_varnames f) args"
    and fac: "settings_Session d tr = Inr sid"
    and fails: "\<And>h. \<exists>e. call f h args (AList.update arg_session (PSession sid) kwargs) = Inl e
                        \<and> isinstance e excs"
    and rb: "\<And>h. session_rollback d h sid = None"
    and cl: "\<And>h. session_close d h sid = None"
    and run: "wrapper d f 3 excs args kwargs tr = (r, tr')"
  shows "\<exists>e. r = Inl e \<and> isinstance e excs \<and> last (calls_of tr') = Inl e
           \<and> length (calls_of tr') = length (calls_of tr) + 3
           \<and> rollbacks_of tr' =
               rollbacks_of tr @ (if isinstance e [''Exception''] then [sid, sid, sid] else [sid, sid])
           \<and> closes_of tr' = closes_of tr @ [sid]
           \<and> commits_of tr' = commits_of tr"
proof -
  let ?kw = "AList.update arg_session (PSession sid) kwargs"
  let ?s = "PSession sid"
  let ?t0 = "tr @ [EvSession (Inr sid)]"
  from fails obtain e1 where e1: "call f ?t0 args ?kw = Inl e1" "isinstance e1 excs" by blast
  let ?t1 = "?t0 @ [EvCall args ?kw (Inl e1), EvRollback sid None]"
  from fails obtain e2 where e2: "call f ?t1 args ?kw = Inl e2" "isinstance e2 excs" by blast
  let ?t2 = "?t1 @ [EvCall args ?kw (Inl e2), EvRollback sid None]"
  from fails obtain e3 where e3: "call f ?t2 args ?kw = Inl e3" "isinstance e3 excs" by blast
  let ?t3 = "?t2 @ [EvCall args ?kw (Inl e3)]"
  have s3: "retry_loop d f args ?kw ?s 3 excs 2 ?t2 = (Inl e3, ?t3)"
    using retry_loop_exhausted[OF e3, of d ?s 3] by simp
  have s2: "retry_loop d f args ?kw ?s 3 excs 1 ?t1 = (Inl e3, ?t3)"
    using retry_loop_again[OF _ e2, of 1 3 d ?s ?t2] s3 by (simp add: rb)
  have s1: "retry_loop d f args ?kw ?s 3 excs 0 ?t0 = (Inl e3, ?t3)"
    using retry_loop_again[OF _ e1, of 0 3 d ?s ?t1] s2 by (simp add: rb)
  from absent fac s1 run have ex: "scope_except d sid e3 ?t3 = (r, tr')"
    by (simp add: wrapper_def Let_def create_session_def retryable_transaction_def)
  then have "r = Inl e3 \<and> last (calls_of tr') = Inl e3
           \<and> length (calls_of tr') = length (calls_of tr) + 3
           \<and> rollbacks_of tr' =
               rollbacks_of tr @ (if isinstance e3 [''Exception''] then [sid, sid, sid] else [sid, sid])
           \<and> closes_of tr' = closes_of tr @ [sid]
           \<and> commits_of tr' = commits_of tr"
    by (auto simp: scope_except_def scope_finally_def Let_def rb cl split: if_splits)
  with e3(2) show ?thesis by blast
qed

theorem exhaustion_owned_three_attempts_witness:
  "\<not> session_in_kwargs [] \<and> \<not> session_in_args (co_varnames always_locked) []
   \<and> settings_Session db_ok [] = Inr 1
   \<and> wrapper db_ok always_locked 3 [''OperationalError''] [] [] [] =
     (Inl (OperationalError ''database is locked''),
      [EvSession (Inr 1),
       EvCall [] [(''session'', PSession 1)] (Inl (OperationalError ''database is locked'')),
       EvRollback 1 None,
       EvCall [] [(''session'', PSession 1)] (Inl (OperationalError ''database is locked'')),
       EvRollback 1 None,
       EvCall [] [(''session'', PSession 1)] (Inl (OperationalError ''database is locked'')),
       EvRollback 1 None,
       EvClose 1 None])
   \<and> isinstance (OperationalError ''database is locked'') [''Exception'']
   \<and> rollbacks_of
      [EvSession (Inr 1),
       EvCall [] [(''session'', PSession 1)] (Inl (OperationalError ''database is locked'')),
       EvRollback 1 None,
       EvCall [] [(''session'', PSession 1)] (Inl (OperationalError ''database is locked'')),
       EvRollback 1 None,
       EvCall [] [(''session'', PSession 1)] (Inl (OperationalError ''database is locked'')),
       EvRollback 1 None,
       EvClose 1 None] = rollbacks_of [] @ [1, 1, 1]"
proof -
  have h1: "\<not> session_in_kwargs []" by (simp add: run_defs)
  have h2: "\<not> session_in_args (co_varnames always_locked) []"
    by (simp add: run_defs)
  have h3: "settings_Session db_ok [] = Inr 1" by (simp add: db_ok_def)
  have h4: "\<And>h. \<exists>e. call always_locked h [] (AList.update arg_session (PSession 1) []) = Inl e
                        \<and> isinstance e [''OperationalError'']"
    by (simp add: always_locked_def isinstance_def OperationalError_def)
  have h5: "\<And>h. session_rollback db_ok h 1 = None" by (simp add: db_ok_def)
  have h6: "\<And>h. session_close db_ok h 1 = None" by (simp add: db_ok_def)
  have h7: "wrapper db_ok always_locked 3 [''OperationalError''] [] [] [] =
     (Inl (OperationalError ''database is locked''),
      [EvSession (Inr 1),
       EvCall [] [(''session'', PSession 1)] (Inl (OperationalError ''database is locked'')),
       EvRollback 1 None,
       EvCall [] [(''session'', PSession 1)] (Inl (OperationalError ''database is locked'')),
       EvRollback 1 None,
       EvCall [] [(''session'', PSession 1)] (Inl (OperationalError ''database is locked'')),
       EvRollback 1 None,
       EvClose 1 None])"
    by (simp add: run_defs retry_loop.simps)
  have h8: "isinstance (OperationalError ''database is locked'') [''Exception'']"
    by (simp add: run_defs)
  from exhaustion_owned_three_attempts[OF h1 h2 h3 h4 h5 h6 h7] h1 h2 h3 h7 h8
  show ?thesis by auto
qed




end
